theory Spec2Isabelle
  imports Main
begin

section \<open>The message sender (sendMessages.ts)\<close>

subsection \<open>Configuration and data\<close>

text \<open>
  The two values read from \<^verbatim>\<open>process.env\<close>. A variable that is not set is \<open>None\<close>.
\<close>

record process_env =
  SERVICE_BUS_CONNECTION_STRING :: "string option"
  QUEUE_NAME :: "string option"

text \<open>
  \<^verbatim>\<open>x || d\<close> on an optional string: \<open>undefined\<close> and the empty string are falsy.
\<close>

definition or_default :: "string option \<Rightarrow> string \<Rightarrow> string" where
  "or_default x d = (case x of None \<Rightarrow> d | Some s \<Rightarrow> if s = [] then d else s)"

definition connectionString :: "process_env \<Rightarrow> string" where
  "connectionString env = or_default (SERVICE_BUS_CONNECTION_STRING env) ''<connection string>''"

definition queueName :: "process_env \<Rightarrow> string" where
  "queueName env = or_default (QUEUE_NAME env) ''<queue name>''"

record scientist =
  name :: string
  firstName :: string

definition listOfScientists :: "scientist list" where
  "listOfScientists =
    [\<lparr>name = ''Einstein'', firstName = ''Albert''\<rparr>,
     \<lparr>name = ''Heisenberg'', firstName = ''Werner''\<rparr>,
     \<lparr>name = ''Curie'', firstName = ''Marie''\<rparr>,
     \<lparr>name = ''Hawking'', firstName = ''Steven''\<rparr>,
     \<lparr>name = ''Newton'', firstName = ''Isaac''\<rparr>,
     \<lparr>name = ''Bohr'', firstName = ''Niels''\<rparr>,
     \<lparr>name = ''Faraday'', firstName = ''Michael''\<rparr>,
     \<lparr>name = ''Galilei'', firstName = ''Galileo''\<rparr>,
     \<lparr>name = ''Kepler'', firstName = ''Johannes''\<rparr>,
     \<lparr>name = ''Kopernikus'', firstName = ''Nikolaus''\<rparr>]"

record SendableMessageInfo =
  body :: string
  label :: string

subsection \<open>The Service Bus client as an environment\<close>

text \<open>
  The calls \<^verbatim>\<open>main\<close> makes on the Service Bus SDK, in the order of the source:
  \<^verbatim>\<open>ServiceBusClient.createFromConnectionString\<close>, \<^verbatim>\<open>sbClient.createQueueClient\<close>,
  \<^verbatim>\<open>queueClient.createSender\<close>, \<^verbatim>\<open>sender.send\<close>, \<^verbatim>\<open>queueClient.close\<close> and
  \<^verbatim>\<open>sbClient.close\<close>.
\<close>

datatype sb_call =
    CreateFromConnectionString string
  | CreateQueueClient string
  | CreateSender
  | SenderSend SendableMessageInfo
  | QueueClientClose
  | SbClientClose

text \<open>
  The SDK is opaque. It is a function from the calls made so far and the call being made
  to that call's outcome: \<open>None\<close> when it returns (its promise resolves), \<open>Some e\<close>
  when it throws (its promise rejects with \<open>e\<close>).
\<close>

type_synonym 'e sb_sdk = "sb_call list \<Rightarrow> sb_call \<Rightarrow> 'e option"

text \<open>What \<^verbatim>\<open>console.log\<close> is given: text, or text followed by an error value.\<close>

datatype 'e console_line = LogText string | LogError string 'e

record 'e run_state =
  calls :: "sb_call list"
  console :: "'e console_line list"

definition invoke :: "'e sb_sdk \<Rightarrow> sb_call \<Rightarrow> 'e run_state \<Rightarrow> 'e option \<times> 'e run_state" where
  "invoke sdk c s = (sdk (calls s) c, s\<lparr>calls := calls s @ [c]\<rparr>)"

definition console_log :: "'e console_line \<Rightarrow> 'e run_state \<Rightarrow> 'e run_state" where
  "console_log l s = s\<lparr>console := console s @ [l]\<rparr>"

subsection \<open>main\<close>

text \<open>The message built in the loop body from one scientist.\<close>

definition message_of :: "scientist \<Rightarrow> SendableMessageInfo" where
  "message_of sc = \<lparr>body = firstName sc @ '' '' @ name sc, label = ''Scientist''\<rparr>"

text \<open>
  The \<^verbatim>\<open>for\<close> loop, from the current index on: the records still to be sent are the
  list argument. A send that throws leaves the loop with the error.
\<close>

fun send_loop :: "'e sb_sdk \<Rightarrow> scientist list \<Rightarrow> 'e run_state \<Rightarrow> 'e option \<times> 'e run_state" where
  "send_loop sdk [] s = (None, s)"
| "send_loop sdk (sc # rest) s =
     (let message = message_of sc;
          s1 = console_log (LogText (''Sending message: '' @ body message @ '' - '' @ label message)) s
      in case invoke sdk (SenderSend message) s1 of
           (Some e, s2) \<Rightarrow> (Some e, s2)
         | (None, s2) \<Rightarrow> send_loop sdk rest s2)"

text \<open>The \<^verbatim>\<open>try\<close> block: the loop, then \<^verbatim>\<open>await queueClient.close()\<close>.\<close>

definition try_block :: "'e sb_sdk \<Rightarrow> scientist list \<Rightarrow> 'e run_state \<Rightarrow> 'e option \<times> 'e run_state" where
  "try_block sdk records s =
     (case send_loop sdk records s of
        (Some e, s1) \<Rightarrow> (Some e, s1)
      | (None, s1) \<Rightarrow> invoke sdk QueueClientClose s1)"

text \<open>
  \<^verbatim>\<open>try { ... } finally { await sbClient.close(); }\<close>: the \<^verbatim>\<open>finally\<close> block runs
  whatever the \<^verbatim>\<open>try\<close> block did; when it throws, its error replaces the outcome of the
  \<^verbatim>\<open>try\<close> block, otherwise that outcome stands.
\<close>

definition try_finally :: "'e sb_sdk \<Rightarrow> scientist list \<Rightarrow> 'e run_state \<Rightarrow> 'e option \<times> 'e run_state" where
  "try_finally sdk records s =
     (case try_block sdk records s of
        (r, s1) \<Rightarrow>
          (case invoke sdk SbClientClose s1 of
             (Some e, s2) \<Rightarrow> (Some e, s2)
           | (None, s2) \<Rightarrow> (r, s2)))"

text \<open>
  \<^verbatim>\<open>main\<close> over a list of records. The three calls before the \<^verbatim>\<open>try\<close> are outside it:
  when one throws, \<^verbatim>\<open>main\<close> ends there.
\<close>

definition main_on :: "'e sb_sdk \<Rightarrow> process_env \<Rightarrow> scientist list \<Rightarrow> 'e option \<times> 'e run_state" where
  "main_on sdk env records =
     (case invoke sdk (CreateFromConnectionString (connectionString env)) \<lparr>calls = [], console = []\<rparr> of
        (Some e, s1) \<Rightarrow> (Some e, s1)
      | (None, s1) \<Rightarrow>
          (case invoke sdk (CreateQueueClient (queueName env)) s1 of
             (Some e, s2) \<Rightarrow> (Some e, s2)
           | (None, s2) \<Rightarrow>
               (case invoke sdk CreateSender s2 of
                  (Some e, s3) \<Rightarrow> (Some e, s3)
                | (None, s3) \<Rightarrow> try_finally sdk records s3)))"

definition main :: "'e sb_sdk \<Rightarrow> process_env \<Rightarrow> 'e option \<times> 'e run_state" where
  "main sdk env = main_on sdk env listOfScientists"

text \<open>The top level: \<^verbatim>\<open>main().catch((err) => console.log("Error occurred: ", err))\<close>.\<close>

definition run :: "'e sb_sdk \<Rightarrow> process_env \<Rightarrow> 'e run_state" where
  "run sdk env =
     (case main sdk env of
        (Some err, s) \<Rightarrow> console_log (LogError ''Error occurred: '' err) s
      | (None, s) \<Rightarrow> s)"

section \<open>The lease client (LeaseClient)\<close>

subsection \<open>Data\<close>

text \<open>
  The client handed to the constructor is a \<^verbatim>\<open>ContainerClient\<close> or a \<^verbatim>\<open>BlobClient\<close>.
  The constructor reads its \<^verbatim>\<open>url\<close> and the result of
  \<^verbatim>\<open>pipeline.toServiceClientOptions()\<close>, a value the code never inspects (\<open>'o\<close>).
\<close>

datatype 'o storage_client =
    ContainerClient string 'o
  | BlobClient string 'o

fun client_url :: "'o storage_client \<Rightarrow> string" where
  "client_url (ContainerClient u p) = u"
| "client_url (BlobClient u p) = u"

fun toServiceClientOptions :: "'o storage_client \<Rightarrow> 'o" where
  "toServiceClientOptions (ContainerClient u p) = p"
| "toServiceClientOptions (BlobClient u p) = p"

datatype 'o StorageClientContext = StorageClientContext string 'o

text \<open>The generated operation objects: \<^verbatim>\<open>new Container(ctx)\<close> and \<^verbatim>\<open>new Blob(ctx)\<close>.\<close>

datatype 'o operations =
    Container "'o StorageClientContext"
  | Blob "'o StorageClientContext"

record 'o LeaseClient =
  leaseId :: string
  url :: string
  containerOrBlobOperation :: "'o operations"

text \<open>
  An abort signal is \<^verbatim>\<open>AbortSignal.none\<close> or a signal of the caller's (\<open>'s\<close>).
  The access conditions (\<open>'c\<close>) are passed on as they are.
\<close>

datatype 's AbortSignalLike = AbortSignal_none | Signal 's

record ('s, 'c) LeaseOperationOptions =
  abortSignal :: "'s AbortSignalLike option"
  modifiedAccessConditions :: "'c option"

text \<open>
  The requests the lease client makes of the operation object, with the arguments of the
  source in its order. The option objects of the source are the constructors' arguments:
  \<^item> \<^verbatim>\<open>acquireLease({abortSignal, duration, modifiedAccessConditions, proposedLeaseId})\<close>
  \<^item> \<^verbatim>\<open>changeLease(leaseId, proposedLeaseId, {abortSignal, modifiedAccessConditions})\<close>
  \<^item> \<^verbatim>\<open>releaseLease(leaseId, {abortSignal, modifiedAccessConditions})\<close>
  \<^item> \<^verbatim>\<open>renewLease(leaseId, {abortSignal, modifiedAccessConditions})\<close>
  \<^item> \<^verbatim>\<open>breakLease({abortSignal, breakPeriod, modifiedAccessConditions})\<close>

  A JavaScript number (\<open>'n\<close>) is never inspected by the lease client.
\<close>

datatype ('s, 'n, 'c) request =
    AcquireLeaseRequest "'s AbortSignalLike" 'n "'c option" string
  | ChangeLeaseRequest string string "'s AbortSignalLike" "'c option"
  | ReleaseLeaseRequest string "'s AbortSignalLike" "'c option"
  | RenewLeaseRequest string "'s AbortSignalLike" "'c option"
  | BreakLeaseRequest "'s AbortSignalLike" 'n "'c option"

text \<open>
  The storage service behind the operation objects is opaque: a function from the
  requests made so far, the operation object and the request to the outcome, \<open>Inr\<close> a
  response (\<open>'r\<close>) when the promise resolves, \<open>Inl\<close> an error (\<open>'e\<close>) when it rejects.
\<close>

type_synonym ('o, 's, 'n, 'c) request_log = "('o operations \<times> ('s, 'n, 'c) request) list"

type_synonym ('o, 's, 'n, 'c, 'e, 'r) service =
  "('o, 's, 'n, 'c) request_log \<Rightarrow> 'o operations \<Rightarrow> ('s, 'n, 'c) request \<Rightarrow> 'e + 'r"

definition forward ::
  "('o, 's, 'n, 'c, 'e, 'r) service \<Rightarrow> 'o operations \<Rightarrow> ('s, 'n, 'c) request \<Rightarrow>
   ('o, 's, 'n, 'c) request_log \<Rightarrow> ('e + 'r) \<times> ('o, 's, 'n, 'c) request_log" where
  "forward service target req log = (service log target req, log @ [(target, req)])"

subsection \<open>The constructor\<close>

text \<open>
  \<^verbatim>\<open>generateUuid\<close> of \<^verbatim>\<open>@azure/core-http\<close> is not part of the source at hand. It is
  a parameter of the constructor: a function from the state of the random source (\<open>'g\<close>)
  to the identifier and the next state.

  \<^verbatim>\<open>!leaseId\<close> holds of \<open>undefined\<close> and of the empty string.
\<close>

definition new_LeaseClient ::
  "('g \<Rightarrow> string \<times> 'g) \<Rightarrow> 'o storage_client \<Rightarrow> string option \<Rightarrow> 'g \<Rightarrow> 'o LeaseClient \<times> 'g" where
  "new_LeaseClient generateUuid client leaseId_arg g =
     (let clientContext = StorageClientContext (client_url client) (toServiceClientOptions client);
          operation = (case client of
                         ContainerClient u p \<Rightarrow> Container clientContext
                       | BlobClient u p \<Rightarrow> Blob clientContext);
          (leaseId', g') = (case leaseId_arg of
                              None \<Rightarrow> generateUuid g
                            | Some l \<Rightarrow> if l = [] then generateUuid g else (l, g))
      in (\<lparr>leaseId = leaseId', url = client_url client, containerOrBlobOperation = operation\<rparr>, g'))"

subsection \<open>The operations\<close>

text \<open>The default \<^verbatim>\<open>options = {}\<close> and \<^verbatim>\<open>options.abortSignal || AbortSignal.none\<close>.\<close>

definition options_or_empty ::
  "('s, 'c) LeaseOperationOptions option \<Rightarrow> ('s, 'c) LeaseOperationOptions" where
  "options_or_empty options =
     (case options of
        None \<Rightarrow> \<lparr>abortSignal = None, modifiedAccessConditions = None\<rparr>
      | Some opts \<Rightarrow> opts)"

definition aborter_of :: "('s, 'c) LeaseOperationOptions \<Rightarrow> 's AbortSignalLike" where
  "aborter_of options = (case abortSignal options of None \<Rightarrow> AbortSignal_none | Some a \<Rightarrow> a)"

text \<open>
  Every operation takes the service, the handle and the log of requests, and returns the
  outcome, the handle after the call and the log after the call.
\<close>

definition acquireLease ::
  "('o, 's, 'n, 'c, 'e, 'r) service \<Rightarrow> 'n \<Rightarrow> ('s, 'c) LeaseOperationOptions option \<Rightarrow>
   'o LeaseClient \<Rightarrow> ('o, 's, 'n, 'c) request_log \<Rightarrow>
   ('e + 'r) \<times> 'o LeaseClient \<times> ('o, 's, 'n, 'c) request_log" where
  "acquireLease service duration options this log =
     (let opts = options_or_empty options;
          aborter = aborter_of opts;
          (response, log') =
            forward service (containerOrBlobOperation this)
              (AcquireLeaseRequest aborter duration (modifiedAccessConditions opts) (leaseId this)) log
      in (response, this, log'))"

text \<open>
  The source spells it \<^verbatim>\<open>chanageLease\<close>. The assignment to \<^verbatim>\<open>_leaseId\<close> follows the
  \<^verbatim>\<open>await\<close>: it is not reached when the request is rejected.
\<close>

definition chanageLease ::
  "('o, 's, 'n, 'c, 'e, 'r) service \<Rightarrow> string \<Rightarrow> ('s, 'c) LeaseOperationOptions option \<Rightarrow>
   'o LeaseClient \<Rightarrow> ('o, 's, 'n, 'c) request_log \<Rightarrow>
   ('e + 'r) \<times> 'o LeaseClient \<times> ('o, 's, 'n, 'c) request_log" where
  "chanageLease service proposedLeaseId options this log =
     (let opts = options_or_empty options;
          aborter = aborter_of opts;
          (response, log') =
            forward service (containerOrBlobOperation this)
              (ChangeLeaseRequest (leaseId this) proposedLeaseId aborter (modifiedAccessConditions opts)) log
      in case response of
           Inl e \<Rightarrow> (Inl e, this, log')
         | Inr r \<Rightarrow> (Inr r, this\<lparr>leaseId := proposedLeaseId\<rparr>, log'))"

definition releaseLease ::
  "('o, 's, 'n, 'c, 'e, 'r) service \<Rightarrow> ('s, 'c) LeaseOperationOptions option \<Rightarrow>
   'o LeaseClient \<Rightarrow> ('o, 's, 'n, 'c) request_log \<Rightarrow>
   ('e + 'r) \<times> 'o LeaseClient \<times> ('o, 's, 'n, 'c) request_log" where
  "releaseLease service options this log =
     (let opts = options_or_empty options;
          aborter = aborter_of opts;
          (response, log') =
            forward service (containerOrBlobOperation this)
              (ReleaseLeaseRequest (leaseId this) aborter (modifiedAccessConditions opts)) log
      in (response, this, log'))"

definition renewLease ::
  "('o, 's, 'n, 'c, 'e, 'r) service \<Rightarrow> ('s, 'c) LeaseOperationOptions option \<Rightarrow>
   'o LeaseClient \<Rightarrow> ('o, 's, 'n, 'c) request_log \<Rightarrow>
   ('e + 'r) \<times> 'o LeaseClient \<times> ('o, 's, 'n, 'c) request_log" where
  "renewLease service options this log =
     (let opts = options_or_empty options;
          aborter = aborter_of opts;
          (response, log') =
            forward service (containerOrBlobOperation this)
              (RenewLeaseRequest (leaseId this) aborter (modifiedAccessConditions opts)) log
      in (response, this, log'))"

definition breakLease ::
  "('o, 's, 'n, 'c, 'e, 'r) service \<Rightarrow> 'n \<Rightarrow> ('s, 'c) LeaseOperationOptions option \<Rightarrow>
   'o LeaseClient \<Rightarrow> ('o, 's, 'n, 'c) request_log \<Rightarrow>
   ('e + 'r) \<times> 'o LeaseClient \<times> ('o, 's, 'n, 'c) request_log" where
  "breakLease service breakPeriod options this log =
     (let opts = options_or_empty options;
          aborter = aborter_of opts;
          (response, log') =
            forward service (containerOrBlobOperation this)
              (BreakLeaseRequest aborter breakPeriod (modifiedAccessConditions opts)) log
      in (response, this, log'))"

section \<open>Vocabulary of the properties\<close>

subsection \<open>Runs of the message sender\<close>

text \<open>The send calls for a list of records, in the order of the list.\<close>

definition sent :: "scientist list \<Rightarrow> sb_call list" where
  "sent records = map (\<lambda>sc. SenderSend (message_of sc)) records"

text \<open>
  The outcome the SDK gives send call \<open>i\<close> (counted from 0) when the calls \<open>h\<close> and the
  sends of the records before \<open>i\<close> have been made.
\<close>

definition send_outcome :: "'e sb_sdk \<Rightarrow> sb_call list \<Rightarrow> scientist list \<Rightarrow> nat \<Rightarrow> 'e option" where
  "send_outcome sdk h records i = sdk (h @ sent (take i records)) (SenderSend (message_of (records ! i)))"

text \<open>The send calls before index \<open>k\<close> all succeed.\<close>

definition sends_ok_before :: "'e sb_sdk \<Rightarrow> sb_call list \<Rightarrow> scientist list \<Rightarrow> nat \<Rightarrow> bool" where
  "sends_ok_before sdk h records k = (\<forall>i<k. send_outcome sdk h records i = None)"

text \<open>The three calls before the \<^verbatim>\<open>try\<close>, and that each of them returns.\<close>

definition setup_calls :: "process_env \<Rightarrow> sb_call list" where
  "setup_calls env =
     [CreateFromConnectionString (connectionString env), CreateQueueClient (queueName env), CreateSender]"

definition setup_ok :: "'e sb_sdk \<Rightarrow> process_env \<Rightarrow> bool" where
  "setup_ok sdk env \<longleftrightarrow>
     sdk [] (CreateFromConnectionString (connectionString env)) = None \<and>
     sdk [CreateFromConnectionString (connectionString env)] (CreateQueueClient (queueName env)) = None \<and>
     sdk [CreateFromConnectionString (connectionString env), CreateQueueClient (queueName env)]
       CreateSender = None"

fun is_send :: "sb_call \<Rightarrow> bool" where
  "is_send (SenderSend m) = True"
| "is_send c = False"

subsection \<open>Sequences of calls on one lease handle\<close>

text \<open>A caller's call of one of the five methods, with its arguments.\<close>

datatype ('s, 'n, 'c) lease_op =
    Acquire 'n "('s, 'c) LeaseOperationOptions option"
  | Change string "('s, 'c) LeaseOperationOptions option"
  | Release "('s, 'c) LeaseOperationOptions option"
  | Renew "('s, 'c) LeaseOperationOptions option"
  | Break 'n "('s, 'c) LeaseOperationOptions option"

fun perform ::
  "('o, 's, 'n, 'c, 'e, 'r) service \<Rightarrow> ('s, 'n, 'c) lease_op \<Rightarrow>
   'o LeaseClient \<Rightarrow> ('o, 's, 'n, 'c) request_log \<Rightarrow>
   ('e + 'r) \<times> 'o LeaseClient \<times> ('o, 's, 'n, 'c) request_log" where
  "perform service (Acquire duration options) this log = acquireLease service duration options this log"
| "perform service (Change proposedLeaseId options) this log =
     chanageLease service proposedLeaseId options this log"
| "perform service (Release options) this log = releaseLease service options this log"
| "perform service (Renew options) this log = renewLease service options this log"
| "perform service (Break breakPeriod options) this log = breakLease service breakPeriod options this log"

text \<open>
  The calls of a list made one after the other on the same handle; a rejected call is
  caught by the caller, who goes on. The result lists every call with its outcome.
\<close>

fun run_ops ::
  "('o, 's, 'n, 'c, 'e, 'r) service \<Rightarrow> ('s, 'n, 'c) lease_op list \<Rightarrow>
   'o LeaseClient \<Rightarrow> ('o, 's, 'n, 'c) request_log \<Rightarrow>
   (('s, 'n, 'c) lease_op \<times> ('e + 'r)) list \<times> 'o LeaseClient \<times> ('o, 's, 'n, 'c) request_log" where
  "run_ops service [] this log = ([], this, log)"
| "run_ops service (op # ops) this log =
     (case perform service op this log of
        (res, this', log') \<Rightarrow>
          (case run_ops service ops this' log' of
             (outcomes, this'', log'') \<Rightarrow> ((op, res) # outcomes, this'', log'')))"

text \<open>The proposed id of a change-lease call that the service accepted.\<close>

fun accepted_change :: "('s, 'n, 'c) lease_op \<times> ('e + 'r) \<Rightarrow> string option" where
  "accepted_change (Change proposedLeaseId options, Inr r) = Some proposedLeaseId"
| "accepted_change outcome = None"

text \<open>
  The id the handle should hold after the listed outcomes: the id fixed at construction
  until a change-lease call succeeds, then the proposed id of the most recent one that did.
\<close>

definition held_id :: "string \<Rightarrow> (('s, 'n, 'c) lease_op \<times> ('e + 'r)) list \<Rightarrow> string" where
  "held_id initial outcomes =
     (case List.map_filter accepted_change outcomes of
        [] \<Rightarrow> initial
      | p # ps \<Rightarrow> last (p # ps))"

text \<open>The lease id a request carries as the id of the lease held (none in a break request).\<close>

fun request_lease_id :: "('s, 'n, 'c) request \<Rightarrow> string option" where
  "request_lease_id (AcquireLeaseRequest a d c l) = Some l"
| "request_lease_id (ChangeLeaseRequest l p a c) = Some l"
| "request_lease_id (ReleaseLeaseRequest l a c) = Some l"
| "request_lease_id (RenewLeaseRequest l a c) = Some l"
| "request_lease_id (BreakLeaseRequest a b c) = None"

subsection \<open>Sample environments\<close>

definition env0 :: process_env where
  "env0 = \<lparr>SERVICE_BUS_CONNECTION_STRING = Some ''Endpoint=sb://example.servicebus.windows.net/'',
           QUEUE_NAME = Some ''demo''\<rparr>"

text \<open>An SDK whose calls all return.\<close>

definition sdk_ok :: "string sb_sdk" where
  "sdk_ok h c = None"

text \<open>An SDK that rejects the send of the second record.\<close>

definition sdk_send_fails :: "string sb_sdk" where
  "sdk_send_fails h c =
     (case c of
        SenderSend m \<Rightarrow> if body m = ''Werner Heisenberg'' then Some ''send failed'' else None
      | _ \<Rightarrow> None)"

text \<open>An SDK that rejects the send of the second record and \<^verbatim>\<open>sbClient.close()\<close>.\<close>

definition sdk_send_and_close_fail :: "string sb_sdk" where
  "sdk_send_and_close_fail h c =
     (case c of
        SenderSend m \<Rightarrow> if body m = ''Werner Heisenberg'' then Some ''send failed'' else None
      | SbClientClose \<Rightarrow> Some ''close failed''
      | _ \<Rightarrow> None)"

text \<open>A stand-in for the identifier generator: its state is a counter.\<close>

definition counter_uuid :: "nat \<Rightarrow> string \<times> nat" where
  "counter_uuid n = (''uuid-'' @ replicate (Suc n) (CHR ''x''), Suc n)"

text \<open>
  A service that checks the duration of an acquire request, rejects a change to the id
  \<open>''taken''\<close> and accepts every other request.
\<close>

definition demo_service :: "(string, unit, int, string, string, string) service" where
  "demo_service log target req =
     (case req of
        AcquireLeaseRequest a d c l \<Rightarrow>
          if d = - 1 \<or> (15 \<le> d \<and> d \<le> 60) then Inr ''acquired'' else Inl ''InvalidHeaderValue''
      | ChangeLeaseRequest l p a c \<Rightarrow>
          if p = ''taken'' then Inl ''LeaseIdMismatchWithLeaseOperation'' else Inr ''changed''
      | _ \<Rightarrow> Inr ''ok'')"

definition demo_container :: "string storage_client" where
  "demo_container = ContainerClient ''https://account.blob.example/c'' ''opts''"

definition demo_handle :: "string LeaseClient" where
  "demo_handle =
     fst (new_LeaseClient counter_uuid (BlobClient ''https://account.blob.example/c/b'' ''opts'')
            (Some ''id-1'') 0)"

definition demo_ops :: "(unit, int, string) lease_op list" where
  "demo_ops = [Acquire 15 None, Change ''id-2'' None, Renew None, Change ''taken'' None,
               Release None, Break 0 None]"

section \<open>Properties of the message sender\<close>

subsection \<open>The loop\<close>

lemma calls_invoke [simp]: "calls (snd (invoke sdk c s)) = calls s @ [c]"
  by (simp add: invoke_def)

lemma fst_invoke [simp]: "fst (invoke sdk c s) = sdk (calls s) c"
  by (simp add: invoke_def)

lemma calls_console_log [simp]: "calls (console_log l s) = calls s"
  by (simp add: console_log_def)

lemma send_outcome_Cons_Suc:
  "send_outcome sdk h (sc # rest) (Suc i) = send_outcome sdk (h @ [SenderSend (message_of sc)]) rest i"
  by (simp add: send_outcome_def sent_def)

lemma send_outcome_0:
  "send_outcome sdk h (sc # rest) 0 = sdk h (SenderSend (message_of sc))"
  by (simp add: send_outcome_def sent_def)

lemma sends_ok_before_Cons:
  "sends_ok_before sdk h (sc # rest) (Suc k) \<longleftrightarrow>
     sdk h (SenderSend (message_of sc)) = None \<and>
     sends_ok_before sdk (h @ [SenderSend (message_of sc)]) rest k"
  unfolding sends_ok_before_def
  by (auto simp: less_Suc_eq_0_disj send_outcome_Cons_Suc send_outcome_0)

text \<open>One turn of the loop, by the outcome of its send.\<close>

lemma send_loop_Cons:
  "send_loop sdk (sc # rest) s =
     (case sdk (calls s) (SenderSend (message_of sc)) of
        Some e \<Rightarrow> (Some e, snd (invoke sdk (SenderSend (message_of sc))
            (console_log (LogText (''Sending message: '' @ body (message_of sc) @ '' - '' @
               label (message_of sc))) s)))
      | None \<Rightarrow> send_loop sdk rest (snd (invoke sdk (SenderSend (message_of sc))
            (console_log (LogText (''Sending message: '' @ body (message_of sc) @ '' - '' @
               label (message_of sc))) s))))"
  by (simp add: Let_def invoke_def split: option.splits)

lemma send_loop_all_ok:
  "sends_ok_before sdk (calls s) records (length records) \<Longrightarrow>
   fst (send_loop sdk records s) = None \<and>
   calls (snd (send_loop sdk records s)) = calls s @ sent records"
proof (induction records arbitrary: s)
  case Nil
  then show ?case by (simp add: sent_def)
next
  case (Cons sc rest)
  then show ?case
    by (simp add: sends_ok_before_Cons send_loop_Cons sent_def del: send_loop.simps)
qed

lemma send_loop_fails_at:
  "k < length records \<Longrightarrow> sends_ok_before sdk (calls s) records k \<Longrightarrow>
   send_outcome sdk (calls s) records k = Some e \<Longrightarrow>
   fst (send_loop sdk records s) = Some e \<and>
   calls (snd (send_loop sdk records s)) = calls s @ sent (take (Suc k) records)"
proof (induction records arbitrary: s k)
  case Nil
  then show ?case by simp
next
  case (Cons sc rest)
  show ?case
  proof (cases k)
    case 0
    with Cons.prems show ?thesis
      by (simp add: send_outcome_0 send_loop_Cons sent_def del: send_loop.simps)
  next
    case (Suc j)
    with Cons.prems have ok: "sdk (calls s) (SenderSend (message_of sc)) = None"
      and rest: "sends_ok_before sdk (calls s @ [SenderSend (message_of sc)]) rest j"
      and fail: "send_outcome sdk (calls s @ [SenderSend (message_of sc)]) rest j = Some e"
      and j: "j < length rest"
      by (simp_all add: sends_ok_before_Cons send_outcome_Cons_Suc)
    from Cons.IH [of j "snd (invoke sdk (SenderSend (message_of sc))
            (console_log (LogText (''Sending message: '' @ body (message_of sc) @ '' - '' @
               label (message_of sc))) s))"]
      j rest fail ok Suc
    show ?thesis
      by (simp add: send_loop_Cons sent_def del: send_loop.simps)
  qed
qed

text \<open>When not every send succeeds, there is a first one that fails.\<close>

lemma first_failing_send:
  assumes "\<not> sends_ok_before sdk h records n"
  shows "\<exists>k e. k < n \<and> sends_ok_before sdk h records k \<and> send_outcome sdk h records k = Some e"
proof -
  from assms obtain i where i: "i < n" "send_outcome sdk h records i \<noteq> None"
    by (auto simp: sends_ok_before_def)
  define k where "k = (LEAST i. send_outcome sdk h records i \<noteq> None)"
  have k1: "send_outcome sdk h records k \<noteq> None"
    unfolding k_def using i(2) by (rule LeastI)
  have k2: "k \<le> i"
    unfolding k_def using i(2) by (rule Least_le)
  have k3: "\<And>j. j < k \<Longrightarrow> send_outcome sdk h records j = None"
    unfolding k_def using not_less_Least by blast
  from k1 obtain e where "send_outcome sdk h records k = Some e" by auto
  with k2 k3 i(1) show ?thesis
    by (auto simp: sends_ok_before_def intro!: exI [of _ k])
qed

subsection \<open>The try and finally blocks\<close>

lemma main_on_setup_ok:
  "setup_ok sdk env \<Longrightarrow>
   main_on sdk env records = try_finally sdk records \<lparr>calls = setup_calls env, console = []\<rparr>"
  by (simp add: main_on_def setup_ok_def setup_calls_def invoke_def)

lemma try_finally_all_ok:
  assumes "sends_ok_before sdk (calls s) records (length records)"
  shows "calls (snd (try_finally sdk records s)) = calls s @ sent records @ [QueueClientClose, SbClientClose]"
    and "fst (try_finally sdk records s) =
           (case sdk (calls s @ sent records @ [QueueClientClose]) SbClientClose of
              Some e \<Rightarrow> Some e
            | None \<Rightarrow> sdk (calls s @ sent records) QueueClientClose)"
  using send_loop_all_ok [OF assms]
  by (auto simp: try_finally_def try_block_def invoke_def split: prod.splits option.splits)

lemma try_finally_fails_at:
  assumes "k < length records" "sends_ok_before sdk (calls s) records k"
    "send_outcome sdk (calls s) records k = Some e"
  shows "calls (snd (try_finally sdk records s)) = calls s @ sent (take (Suc k) records) @ [SbClientClose]"
    and "fst (try_finally sdk records s) =
           (case sdk (calls s @ sent (take (Suc k) records)) SbClientClose of
              Some e' \<Rightarrow> Some e'
            | None \<Rightarrow> Some e)"
  using send_loop_fails_at [OF assms]
  by (auto simp: try_finally_def try_block_def invoke_def split: prod.splits option.splits)

lemma filter_is_send_sent [simp]: "filter is_send (sent records) = sent records"
  by (induction records) (simp_all add: sent_def)

lemma filter_is_send_setup [simp]: "filter is_send (setup_calls env) = []"
  by (simp add: setup_calls_def)

lemma count_sent [simp]:
  "count_list (sent records) QueueClientClose = 0" "count_list (sent records) SbClientClose = 0"
  by (induction records) (simp_all add: sent_def)

lemma count_setup [simp]:
  "count_list (setup_calls env) QueueClientClose = 0" "count_list (setup_calls env) SbClientClose = 0"
  by (simp_all add: setup_calls_def)

subsection \<open>The sample environments\<close>

lemmas eval_main =
  main_def main_on_def listOfScientists_def env0_def connectionString_def queueName_def
  or_default_def invoke_def try_finally_def try_block_def message_of_def console_log_def

lemma length_listOfScientists: "length listOfScientists = 10"
  by (simp add: listOfScientists_def)

lemma setup_ok_sdk_ok: "setup_ok sdk_ok env"
  by (simp add: setup_ok_def sdk_ok_def)

lemma sends_ok_sdk_ok: "sends_ok_before sdk_ok h records k"
  by (simp add: sends_ok_before_def send_outcome_def sdk_ok_def)

lemma setup_ok_send_fails: "setup_ok sdk_send_fails env0"
  by (simp add: setup_ok_def sdk_send_fails_def)

lemma setup_ok_send_and_close_fail: "setup_ok sdk_send_and_close_fail env0"
  by (simp add: setup_ok_def sdk_send_and_close_fail_def)

lemma send_fails_first: "sends_ok_before sdk_send_fails (setup_calls env0) listOfScientists 1"
  by (simp add: sends_ok_before_def send_outcome_def sdk_send_fails_def listOfScientists_def
      message_of_def)

lemma send_fails_second:
  "send_outcome sdk_send_fails (setup_calls env0) listOfScientists 1 = Some ''send failed''"
  by (simp add: send_outcome_def sdk_send_fails_def listOfScientists_def message_of_def)

lemma send_fails_not_all:
  "\<not> sends_ok_before sdk_send_fails (setup_calls env0) listOfScientists (length listOfScientists)"
proof
  assume "sends_ok_before sdk_send_fails (setup_calls env0) listOfScientists (length listOfScientists)"
  then have "send_outcome sdk_send_fails (setup_calls env0) listOfScientists 1 = None"
    by (simp add: sends_ok_before_def length_listOfScientists)
  with send_fails_second show False by simp
qed

lemma send_and_close_fail_first:
  "sends_ok_before sdk_send_and_close_fail (setup_calls env0) listOfScientists 1"
  by (simp add: sends_ok_before_def send_outcome_def sdk_send_and_close_fail_def listOfScientists_def
      message_of_def)

lemma send_and_close_fail_second:
  "send_outcome sdk_send_and_close_fail (setup_calls env0) listOfScientists 1 = Some ''send failed''"
  by (simp add: send_outcome_def sdk_send_and_close_fail_def listOfScientists_def message_of_def)

subsection \<open>Closing the queue client and the Service Bus client\<close>

text \<open>
  Claim C2, as stated, fails: both closes are not invoked on every run. When the send of
  the second record is rejected, \<^verbatim>\<open>main\<close> leaves the \<^verbatim>\<open>try\<close> block before
  \<^verbatim>\<open>await queueClient.close()\<close>, and only \<^verbatim>\<open>sbClient.close()\<close>, in the
  \<^verbatim>\<open>finally\<close> block, is called.
\<close>

theorem main_send_failure_skips_queue_close:
  "calls (snd (main sdk_send_fails env0)) =
     [CreateFromConnectionString ''Endpoint=sb://example.servicebus.windows.net/'',
      CreateQueueClient ''demo'', CreateSender,
      SenderSend \<lparr>body = ''Albert Einstein'', label = ''Scientist''\<rparr>,
      SenderSend \<lparr>body = ''Werner Heisenberg'', label = ''Scientist''\<rparr>,
      SbClientClose] \<and>
   count_list (calls (snd (main sdk_send_fails env0))) QueueClientClose = 0"
  by (simp add: eval_main sdk_send_fails_def)

text \<open>
  Claim C2, amended: on every run of \<^verbatim>\<open>main\<close> that reaches the \<^verbatim>\<open>try\<close> block (the
  three calls before it return), the connection close \<^verbatim>\<open>sbClient.close()\<close> is invoked
  exactly once, as the last call, whatever the earlier calls did. When every send
  succeeds, the channel close \<^verbatim>\<open>queueClient.close()\<close> is invoked exactly once,
  immediately before the connection close; when some send fails, the channel close is
  not invoked.
\<close>

theorem main_closes:
  assumes "setup_ok sdk env"
  shows "count_list (calls (snd (main_on sdk env records))) SbClientClose = 1 \<and>
         last (calls (snd (main_on sdk env records))) = SbClientClose \<and>
         (sends_ok_before sdk (setup_calls env) records (length records) \<longrightarrow>
            count_list (calls (snd (main_on sdk env records))) QueueClientClose = 1 \<and>
            last (butlast (calls (snd (main_on sdk env records)))) = QueueClientClose) \<and>
         (\<not> sends_ok_before sdk (setup_calls env) records (length records) \<longrightarrow>
            count_list (calls (snd (main_on sdk env records))) QueueClientClose = 0)"
proof (cases "sends_ok_before sdk (setup_calls env) records (length records)")
  case True
  then have "calls (snd (main_on sdk env records)) =
      setup_calls env @ sent records @ [QueueClientClose, SbClientClose]"
    using try_finally_all_ok(1) [of sdk "\<lparr>calls = setup_calls env, console = []\<rparr>" records]
    by (simp add: main_on_setup_ok [OF assms])
  with True show ?thesis by (simp add: butlast_append)
next
  case False
  then obtain k e where k: "k < length records"
    "sends_ok_before sdk (setup_calls env) records k"
    "send_outcome sdk (setup_calls env) records k = Some e"
    using first_failing_send by blast
  then have "calls (snd (main_on sdk env records)) =
      setup_calls env @ sent (take (Suc k) records) @ [SbClientClose]"
    using try_finally_fails_at(1) [of k records sdk "\<lparr>calls = setup_calls env, console = []\<rparr>" e]
    by (simp add: main_on_setup_ok [OF assms])
  with False show ?thesis by simp
qed

theorem main_closes_witness:
  "count_list (calls (snd (main_on sdk_ok env0 listOfScientists))) QueueClientClose = 1 \<and>
   count_list (calls (snd (main_on sdk_ok env0 listOfScientists))) SbClientClose = 1 \<and>
   last (butlast (calls (snd (main_on sdk_ok env0 listOfScientists)))) = QueueClientClose \<and>
   last (calls (snd (main_on sdk_ok env0 listOfScientists))) = SbClientClose \<and>
   count_list (calls (snd (main_on sdk_send_fails env0 listOfScientists))) QueueClientClose = 0 \<and>
   count_list (calls (snd (main_on sdk_send_fails env0 listOfScientists))) SbClientClose = 1 \<and>
   last (calls (snd (main_on sdk_send_fails env0 listOfScientists))) = SbClientClose"
  using main_closes [of sdk_ok env0 listOfScientists, OF setup_ok_sdk_ok] sends_ok_sdk_ok
    main_closes [of sdk_send_fails env0 listOfScientists, OF setup_ok_send_fails] send_fails_not_all
  by simp

subsection \<open>The sends, in order, and the first failure\<close>

text \<open>
  Claim C3, as stated, fails in its error part: the error of a failed send does not
  always reach the caller. When the send of the second record is rejected with
  \<open>''send failed''\<close> and \<^verbatim>\<open>sbClient.close()\<close> in the \<^verbatim>\<open>finally\<close> block is rejected
  with \<open>''close failed''\<close>, \<^verbatim>\<open>main\<close> is rejected with \<open>''close failed''\<close>.
\<close>

theorem main_close_error_replaces_send_error:
  "sdk_send_and_close_fail
     [CreateFromConnectionString ''Endpoint=sb://example.servicebus.windows.net/'',
      CreateQueueClient ''demo'', CreateSender,
      SenderSend \<lparr>body = ''Albert Einstein'', label = ''Scientist''\<rparr>]
     (SenderSend \<lparr>body = ''Werner Heisenberg'', label = ''Scientist''\<rparr>) = Some ''send failed'' \<and>
   fst (main sdk_send_and_close_fail env0) = Some ''close failed''"
  by (simp add: eval_main sdk_send_and_close_fail_def)

text \<open>
  Claim C3, amended: for a list of N records, on a run that reaches the \<^verbatim>\<open>try\<close> block,
  when every send succeeds the sender issues exactly N send calls, one per record, in
  list order, each made after the one before has returned; and for every k, if the sends
  before k succeed and send call k fails, the send calls made are exactly those of the
  records up to k (the later ones never occur) and \<^verbatim>\<open>main\<close> fails: with the error of
  the send when the connection close succeeds, with the error of the connection close
  when that fails too.
\<close>

theorem main_sends_in_order_until_failure:
  assumes "setup_ok sdk env"
  shows "(sends_ok_before sdk (setup_calls env) records (length records) \<longrightarrow>
            filter is_send (calls (snd (main_on sdk env records))) = sent records) \<and>
         (\<forall>k e. k < length records \<and> sends_ok_before sdk (setup_calls env) records k \<and>
                send_outcome sdk (setup_calls env) records k = Some e \<longrightarrow>
            filter is_send (calls (snd (main_on sdk env records))) = sent (take (Suc k) records) \<and>
            fst (main_on sdk env records) =
              (case sdk (setup_calls env @ sent (take (Suc k) records)) SbClientClose of
                 None \<Rightarrow> Some e
               | Some e' \<Rightarrow> Some e'))"
proof (intro conjI impI allI)
  assume "sends_ok_before sdk (setup_calls env) records (length records)"
  then show "filter is_send (calls (snd (main_on sdk env records))) = sent records"
    using try_finally_all_ok(1) [of sdk "\<lparr>calls = setup_calls env, console = []\<rparr>" records]
    by (simp add: main_on_setup_ok [OF assms])
next
  fix k e
  assume k: "k < length records \<and> sends_ok_before sdk (setup_calls env) records k \<and>
    send_outcome sdk (setup_calls env) records k = Some e"
  then show "filter is_send (calls (snd (main_on sdk env records))) = sent (take (Suc k) records)"
    using try_finally_fails_at(1) [of k records sdk "\<lparr>calls = setup_calls env, console = []\<rparr>" e]
    by (simp add: main_on_setup_ok [OF assms])
  from k show "fst (main_on sdk env records) =
      (case sdk (setup_calls env @ sent (take (Suc k) records)) SbClientClose of
         None \<Rightarrow> Some e | Some e' \<Rightarrow> Some e')"
    using try_finally_fails_at(2) [of k records sdk "\<lparr>calls = setup_calls env, console = []\<rparr>" e]
    by (simp add: main_on_setup_ok [OF assms] split: option.splits)
qed

theorem main_sends_in_order_until_failure_witness:
  "filter is_send (calls (snd (main_on sdk_ok env0 listOfScientists))) = sent listOfScientists \<and>
   filter is_send (calls (snd (main_on sdk_send_fails env0 listOfScientists))) =
     sent (take 2 listOfScientists) \<and>
   fst (main_on sdk_send_fails env0 listOfScientists) = Some ''send failed'' \<and>
   fst (main_on sdk_send_and_close_fail env0 listOfScientists) = Some ''close failed''"
proof -
  have a: "filter is_send (calls (snd (main_on sdk_ok env0 listOfScientists))) = sent listOfScientists"
    using main_sends_in_order_until_failure [of sdk_ok env0 listOfScientists, OF setup_ok_sdk_ok]
      sends_ok_sdk_ok
    by blast
  have k: "1 < length listOfScientists"
    by (simp add: length_listOfScientists)
  have b: "filter is_send (calls (snd (main_on sdk_send_fails env0 listOfScientists))) =
        sent (take (Suc 1) listOfScientists) \<and>
      fst (main_on sdk_send_fails env0 listOfScientists) =
        (case sdk_send_fails (setup_calls env0 @ sent (take (Suc 1) listOfScientists)) SbClientClose of
           None \<Rightarrow> Some ''send failed'' | Some e' \<Rightarrow> Some e')"
    using main_sends_in_order_until_failure [of sdk_send_fails env0 listOfScientists,
        OF setup_ok_send_fails]
      k send_fails_first send_fails_second
    by blast
  have c: "fst (main_on sdk_send_and_close_fail env0 listOfScientists) =
        (case sdk_send_and_close_fail (setup_calls env0 @ sent (take (Suc 1) listOfScientists))
                SbClientClose of
           None \<Rightarrow> Some ''send failed'' | Some e' \<Rightarrow> Some e')"
    using main_sends_in_order_until_failure [of sdk_send_and_close_fail env0 listOfScientists,
        OF setup_ok_send_and_close_fail]
      k send_and_close_fail_first send_and_close_fail_second
    by blast
  from a b c show ?thesis
    by (simp add: sdk_send_fails_def sdk_send_and_close_fail_def numeral_2_eq_2)
qed

subsection \<open>The run over the list of scientists\<close>

text \<open>
  Claim C8, as stated, fails: the list of the sender has 10 records, not 3, and a run in
  which every call succeeds issues 10 send calls.
\<close>

theorem main_issues_ten_sends:
  "length (filter is_send (calls (snd (main sdk_ok env0)))) = 10"
  by (simp add: eval_main sdk_ok_def)

text \<open>
  Claim C8, amended: running the message sender on its list of 10 scientist records, when
  the three calls before the \<^verbatim>\<open>try\<close> block and every send succeed, issues after those
  three calls exactly 10 send calls with the message bodies "Albert Einstein", "Werner
  Heisenberg", "Marie Curie", "Steven Hawking", "Isaac Newton", "Niels Bohr", "Michael
  Faraday", "Galileo Galilei", "Johannes Kepler", "Nikolaus Kopernikus" and the label
  "Scientist", in that order, followed by the channel close and then the connection close.
\<close>

theorem main_scientists_calls:
  assumes "setup_ok sdk env"
    and "sends_ok_before sdk (setup_calls env) listOfScientists (length listOfScientists)"
  shows "calls (snd (main sdk env)) =
     setup_calls env @
     [SenderSend \<lparr>body = ''Albert Einstein'', label = ''Scientist''\<rparr>,
      SenderSend \<lparr>body = ''Werner Heisenberg'', label = ''Scientist''\<rparr>,
      SenderSend \<lparr>body = ''Marie Curie'', label = ''Scientist''\<rparr>,
      SenderSend \<lparr>body = ''Steven Hawking'', label = ''Scientist''\<rparr>,
      SenderSend \<lparr>body = ''Isaac Newton'', label = ''Scientist''\<rparr>,
      SenderSend \<lparr>body = ''Niels Bohr'', label = ''Scientist''\<rparr>,
      SenderSend \<lparr>body = ''Michael Faraday'', label = ''Scientist''\<rparr>,
      SenderSend \<lparr>body = ''Galileo Galilei'', label = ''Scientist''\<rparr>,
      SenderSend \<lparr>body = ''Johannes Kepler'', label = ''Scientist''\<rparr>,
      SenderSend \<lparr>body = ''Nikolaus Kopernikus'', label = ''Scientist''\<rparr>,
      QueueClientClose, SbClientClose]"
proof -
  have "calls (snd (main sdk env)) =
      setup_calls env @ sent listOfScientists @ [QueueClientClose, SbClientClose]"
    using try_finally_all_ok(1) [of sdk "\<lparr>calls = setup_calls env, console = []\<rparr>" listOfScientists]
      assms(2)
    by (simp add: main_def main_on_setup_ok [OF assms(1)])
  then show ?thesis
    by (simp add: sent_def listOfScientists_def message_of_def)
qed

theorem main_scientists_calls_witness:
  "calls (snd (main sdk_ok env0)) =
     [CreateFromConnectionString ''Endpoint=sb://example.servicebus.windows.net/'',
      CreateQueueClient ''demo'', CreateSender,
      SenderSend \<lparr>body = ''Albert Einstein'', label = ''Scientist''\<rparr>,
      SenderSend \<lparr>body = ''Werner Heisenberg'', label = ''Scientist''\<rparr>,
      SenderSend \<lparr>body = ''Marie Curie'', label = ''Scientist''\<rparr>,
      SenderSend \<lparr>body = ''Steven Hawking'', label = ''Scientist''\<rparr>,
      SenderSend \<lparr>body = ''Isaac Newton'', label = ''Scientist''\<rparr>,
      SenderSend \<lparr>body = ''Niels Bohr'', label = ''Scientist''\<rparr>,
      SenderSend \<lparr>body = ''Michael Faraday'', label = ''Scientist''\<rparr>,
      SenderSend \<lparr>body = ''Galileo Galilei'', label = ''Scientist''\<rparr>,
      SenderSend \<lparr>body = ''Johannes Kepler'', label = ''Scientist''\<rparr>,
      SenderSend \<lparr>body = ''Nikolaus Kopernikus'', label = ''Scientist''\<rparr>,
      QueueClientClose, SbClientClose]"
  using main_scientists_calls [of sdk_ok env0, OF setup_ok_sdk_ok sends_ok_sdk_ok]
  by (simp add: setup_calls_def env0_def connectionString_def queueName_def or_default_def)

section \<open>Properties of the lease client\<close>

subsection \<open>What each operation forwards and returns\<close>

lemma acquireLease_eq:
  "acquireLease service duration options this log =
     (service log (containerOrBlobOperation this)
        (AcquireLeaseRequest (aborter_of (options_or_empty options)) duration
           (modifiedAccessConditions (options_or_empty options)) (leaseId this)),
      this,
      log @ [(containerOrBlobOperation this,
              AcquireLeaseRequest (aborter_of (options_or_empty options)) duration
                (modifiedAccessConditions (options_or_empty options)) (leaseId this))])"
  by (simp add: acquireLease_def forward_def Let_def)

lemma releaseLease_eq:
  "releaseLease service options this log =
     (service log (containerOrBlobOperation this)
        (ReleaseLeaseRequest (leaseId this) (aborter_of (options_or_empty options))
           (modifiedAccessConditions (options_or_empty options))),
      this,
      log @ [(containerOrBlobOperation this,
              ReleaseLeaseRequest (leaseId this) (aborter_of (options_or_empty options))
                (modifiedAccessConditions (options_or_empty options)))])"
  by (simp add: releaseLease_def forward_def Let_def)

lemma renewLease_eq:
  "renewLease service options this log =
     (service log (containerOrBlobOperation this)
        (RenewLeaseRequest (leaseId this) (aborter_of (options_or_empty options))
           (modifiedAccessConditions (options_or_empty options))),
      this,
      log @ [(containerOrBlobOperation this,
              RenewLeaseRequest (leaseId this) (aborter_of (options_or_empty options))
                (modifiedAccessConditions (options_or_empty options)))])"
  by (simp add: renewLease_def forward_def Let_def)

lemma breakLease_eq:
  "breakLease service breakPeriod options this log =
     (service log (containerOrBlobOperation this)
        (BreakLeaseRequest (aborter_of (options_or_empty options)) breakPeriod
           (modifiedAccessConditions (options_or_empty options))),
      this,
      log @ [(containerOrBlobOperation this,
              BreakLeaseRequest (aborter_of (options_or_empty options)) breakPeriod
                (modifiedAccessConditions (options_or_empty options)))])"
  by (simp add: breakLease_def forward_def Let_def)

lemma chanageLease_eq:
  "chanageLease service proposedLeaseId options this log =
     (service log (containerOrBlobOperation this)
        (ChangeLeaseRequest (leaseId this) proposedLeaseId (aborter_of (options_or_empty options))
           (modifiedAccessConditions (options_or_empty options))),
      (case service log (containerOrBlobOperation this)
              (ChangeLeaseRequest (leaseId this) proposedLeaseId (aborter_of (options_or_empty options))
                 (modifiedAccessConditions (options_or_empty options))) of
         Inl e \<Rightarrow> this
       | Inr r \<Rightarrow> this\<lparr>leaseId := proposedLeaseId\<rparr>),
      log @ [(containerOrBlobOperation this,
              ChangeLeaseRequest (leaseId this) proposedLeaseId (aborter_of (options_or_empty options))
                (modifiedAccessConditions (options_or_empty options)))])"
  by (simp add: chanageLease_def forward_def Let_def split: sum.splits)

lemmas lease_eqs = acquireLease_eq releaseLease_eq renewLease_eq breakLease_eq chanageLease_eq

subsection \<open>The constructor\<close>

lemma new_LeaseClient_eq:
  "new_LeaseClient generateUuid client leaseId_arg g =
     (\<lparr>leaseId = (case leaseId_arg of
                     None \<Rightarrow> fst (generateUuid g)
                   | Some l \<Rightarrow> if l = [] then fst (generateUuid g) else l),
       url = client_url client,
       containerOrBlobOperation =
         (case client of
            ContainerClient u p \<Rightarrow> Container (StorageClientContext u p)
          | BlobClient u p \<Rightarrow> Blob (StorageClientContext u p))\<rparr>,
      (case leaseId_arg of
         None \<Rightarrow> snd (generateUuid g)
       | Some l \<Rightarrow> if l = [] then snd (generateUuid g) else g))"
  by (cases client; cases leaseId_arg)
     (simp_all add: new_LeaseClient_def Let_def case_prod_beta)

text \<open>Without an id from the caller, the handle holds what the generator returned.\<close>

lemma new_LeaseClient_generated:
  "leaseId (fst (new_LeaseClient generateUuid client None g)) = fst (generateUuid g)"
  by (simp add: new_LeaseClient_eq)

subsection \<open>One call and a sequence of calls\<close>

lemma perform_frame:
  "perform service op this log = (res, this', log') \<Longrightarrow>
   url this' = url this \<and> containerOrBlobOperation this' = containerOrBlobOperation this \<and>
   leaseId this' = (case accepted_change (op, res) of None \<Rightarrow> leaseId this | Some p \<Rightarrow> p) \<and>
   (\<exists>req. log' = log @ [(containerOrBlobOperation this, req)])"
  by (cases op) (auto simp: lease_eqs split: sum.splits)

lemma perform_targets:
  assumes "perform service op this log = (res, this', log')"
  shows "containerOrBlobOperation this' = containerOrBlobOperation this"
    and "map fst log' = map fst log @ [containerOrBlobOperation this]"
  using perform_frame [OF assms] by auto

lemma held_id_Cons:
  "held_id initial (outcome # outcomes) =
     held_id (case accepted_change outcome of None \<Rightarrow> initial | Some p \<Rightarrow> p) outcomes"
  by (simp add: held_id_def List.map_filter_simps split: option.splits list.splits)

lemma run_ops_frame:
  "run_ops service ops this log = (outcomes, this', log') \<Longrightarrow>
   url this' = url this \<and> containerOrBlobOperation this' = containerOrBlobOperation this \<and>
   leaseId this' = held_id (leaseId this) outcomes \<and>
   map fst outcomes = ops \<and>
   map fst log' = map fst log @ replicate (length ops) (containerOrBlobOperation this)"
proof (induction ops arbitrary: this log outcomes this' log')
  case Nil
  then show ?case by (simp add: held_id_def List.map_filter_simps)
next
  case (Cons op ops)
  obtain res this1 log1 where p: "perform service op this log = (res, this1, log1)"
    by (cases "perform service op this log") auto
  obtain outs this2 log2 where r: "run_ops service ops this1 log1 = (outs, this2, log2)"
    by (cases "run_ops service ops this1 log1") auto
  from Cons.prems p r have eq: "outcomes = (op, res) # outs" "this' = this2" "log' = log2"
    by simp_all
  from perform_frame [OF p] Cons.IH [OF r] show ?case
    unfolding eq by (auto simp: held_id_Cons replicate_append_same simp flip: replicate_Suc)
qed

lemmas eval_lease =
  lease_eqs demo_service_def demo_ops_def demo_handle_def demo_container_def new_LeaseClient_eq
  options_or_empty_def aborter_of_def counter_uuid_def held_id_def List.map_filter_simps

subsection \<open>changeLease\<close>

text \<open>
  Claim C1: for every \<^verbatim>\<open>chanageLease\<close> call on a lease client, the outcome is that of the
  forwarded change-lease request; if the request succeeds, the handle's \<open>leaseId\<close> is the
  proposed id afterwards, and if it is rejected the \<open>leaseId\<close> is unchanged; in both
  cases a following acquire, release or renew forwards the id the handle then holds.
\<close>

theorem chanageLease_sets_leaseId_on_success_only:
  assumes "chanageLease service proposedLeaseId options this log = (response, this', log')"
  shows "response = service log (containerOrBlobOperation this)
           (ChangeLeaseRequest (leaseId this) proposedLeaseId (aborter_of (options_or_empty options))
              (modifiedAccessConditions (options_or_empty options))) \<and>
         (\<forall>r. response = Inr r \<longrightarrow> leaseId this' = proposedLeaseId) \<and>
         (\<forall>e. response = Inl e \<longrightarrow> leaseId this' = leaseId this) \<and>
         request_lease_id (snd (last (snd (snd (acquireLease service duration options1 this' log'))))) =
           Some (leaseId this') \<and>
         request_lease_id (snd (last (snd (snd (releaseLease service options2 this' log'))))) =
           Some (leaseId this') \<and>
         request_lease_id (snd (last (snd (snd (renewLease service options3 this' log'))))) =
           Some (leaseId this')"
  using assms by (auto simp: lease_eqs)

theorem chanageLease_sets_leaseId_on_success_only_witness:
  "leaseId (fst (snd (chanageLease demo_service ''id-2'' None demo_handle []))) = ''id-2'' \<and>
   request_lease_id (snd (last (snd (snd (renewLease demo_service None
      (fst (snd (chanageLease demo_service ''id-2'' None demo_handle [])))
      (snd (snd (chanageLease demo_service ''id-2'' None demo_handle []))))))))
     = Some ''id-2'' \<and>
   leaseId (fst (snd (chanageLease demo_service ''taken'' None demo_handle []))) = ''id-1'' \<and>
   request_lease_id (snd (last (snd (snd (renewLease demo_service None
      (fst (snd (chanageLease demo_service ''taken'' None demo_handle [])))
      (snd (snd (chanageLease demo_service ''taken'' None demo_handle []))))))))
     = Some ''id-1''"
proof -
  have id: "leaseId demo_handle = ''id-1''"
    by (simp add: demo_handle_def new_LeaseClient_eq)
  have ok: "chanageLease demo_service ''id-2'' None demo_handle [] =
      (Inr ''changed'', fst (snd (chanageLease demo_service ''id-2'' None demo_handle [])),
       snd (snd (chanageLease demo_service ''id-2'' None demo_handle [])))"
    by (simp add: chanageLease_eq demo_service_def)
  have ko: "chanageLease demo_service ''taken'' None demo_handle [] =
      (Inl ''LeaseIdMismatchWithLeaseOperation'',
       fst (snd (chanageLease demo_service ''taken'' None demo_handle [])),
       snd (snd (chanageLease demo_service ''taken'' None demo_handle [])))"
    by (simp add: chanageLease_eq demo_service_def)
  from chanageLease_sets_leaseId_on_success_only [OF ok, where ?options3.0 = None]
    chanageLease_sets_leaseId_on_success_only [OF ko, where ?options3.0 = None]
  show ?thesis
    by (simp add: id)
qed

subsection \<open>The other operations leave the handle alone\<close>

text \<open>
  Claim C4: \<^verbatim>\<open>acquireLease\<close>, \<^verbatim>\<open>releaseLease\<close>, \<^verbatim>\<open>renewLease\<close> and \<^verbatim>\<open>breakLease\<close> return
  the handle as it was (so its \<open>leaseId\<close> and \<open>url\<close> are unchanged), whatever the service
  answers; and after any sequence of calls on a handle, its \<open>url\<close> is unchanged and its
  \<open>leaseId\<close> is the id fixed at construction when no change-lease call has succeeded, and
  the proposed id of the most recent successful change-lease call otherwise.
\<close>

theorem leaseId_changed_by_successful_change_only:
  "fst (snd (acquireLease service duration options this log)) = this \<and>
   fst (snd (releaseLease service options this log)) = this \<and>
   fst (snd (renewLease service options this log)) = this \<and>
   fst (snd (breakLease service breakPeriod options this log)) = this \<and>
   (\<forall>outcomes this' log'. run_ops service ops this log = (outcomes, this', log') \<longrightarrow>
      leaseId this' = held_id (leaseId this) outcomes \<and> url this' = url this)"
proof -
  have "leaseId this' = held_id (leaseId this) outcomes \<and> url this' = url this"
    if "run_ops service ops this log = (outcomes, this', log')" for outcomes this' log'
    using run_ops_frame [OF that] by simp
  moreover have "fst (snd (acquireLease service duration options this log)) = this"
    "fst (snd (releaseLease service options this log)) = this"
    "fst (snd (renewLease service options this log)) = this"
    "fst (snd (breakLease service breakPeriod options this log)) = this"
    by (simp_all add: lease_eqs)
  ultimately show ?thesis
    by blast
qed

theorem leaseId_changed_by_successful_change_only_witness:
  "leaseId (fst (snd (run_ops demo_service demo_ops demo_handle []))) = ''id-2'' \<and>
   held_id (leaseId demo_handle) (fst (run_ops demo_service demo_ops demo_handle [])) = ''id-2'' \<and>
   url (fst (snd (run_ops demo_service demo_ops demo_handle []))) = ''https://account.blob.example/c/b''"
proof -
  have run: "run_ops demo_service demo_ops demo_handle [] =
      (fst (run_ops demo_service demo_ops demo_handle []),
       fst (snd (run_ops demo_service demo_ops demo_handle [])),
       snd (snd (run_ops demo_service demo_ops demo_handle [])))"
    by simp
  have held: "held_id (leaseId demo_handle) (fst (run_ops demo_service demo_ops demo_handle [])) = ''id-2''"
    by (simp add: eval_lease)
  have u: "url demo_handle = ''https://account.blob.example/c/b''"
    by (simp add: eval_lease)
  from leaseId_changed_by_successful_change_only [of demo_service _ _ demo_handle "[]" _ demo_ops]
    run held u
  show ?thesis by metis
qed

subsection \<open>The operation object chosen at construction\<close>

text \<open>
  Claim C5: constructed from a container client, the lease client holds the container
  operation object, and constructed from a blob client the blob operation object, each
  built on the client's url and options; every one of the five operations forwards its
  request to the object the handle holds and leaves that object in place, so after any
  sequence of calls the object is the one chosen at construction and every request of
  the sequence went to it.
\<close>

theorem operation_object_fixed_at_construction:
  "containerOrBlobOperation (fst (new_LeaseClient generateUuid (ContainerClient u p) leaseId_arg g)) =
     Container (StorageClientContext u p) \<and>
   containerOrBlobOperation (fst (new_LeaseClient generateUuid (BlobClient u p) leaseId_arg g)) =
     Blob (StorageClientContext u p) \<and>
   (\<forall>res this' log'. perform service op this log = (res, this', log') \<longrightarrow>
      containerOrBlobOperation this' = containerOrBlobOperation this \<and>
      map fst log' = map fst log @ [containerOrBlobOperation this]) \<and>
   (\<forall>outcomes this' log'. run_ops service ops this log = (outcomes, this', log') \<longrightarrow>
      containerOrBlobOperation this' = containerOrBlobOperation this \<and>
      map fst log' = map fst log @ replicate (length ops) (containerOrBlobOperation this))"
proof -
  have one: "containerOrBlobOperation this' = containerOrBlobOperation this \<and>
      map fst log' = map fst log @ [containerOrBlobOperation this]"
    if "perform service op this log = (res, this', log')" for res this' log'
    using perform_targets [OF that] by simp
  have many: "containerOrBlobOperation this' = containerOrBlobOperation this \<and>
      map fst log' = map fst log @ replicate (length ops) (containerOrBlobOperation this)"
    if "run_ops service ops this log = (outcomes, this', log')" for outcomes this' log'
    using run_ops_frame [OF that] by simp
  have "containerOrBlobOperation (fst (new_LeaseClient generateUuid (ContainerClient u p) leaseId_arg g)) =
      Container (StorageClientContext u p)"
    "containerOrBlobOperation (fst (new_LeaseClient generateUuid (BlobClient u p) leaseId_arg g)) =
      Blob (StorageClientContext u p)"
    by (simp_all add: new_LeaseClient_eq)
  with one many show ?thesis
    by blast
qed

theorem operation_object_fixed_at_construction_witness:
  "map fst (snd (snd (perform demo_service (Acquire 15 None)
      (fst (new_LeaseClient counter_uuid demo_container None 0)) []))) =
   [Container (StorageClientContext ''https://account.blob.example/c'' ''opts'')] \<and>
   map fst (snd (snd (run_ops demo_service demo_ops
      (fst (new_LeaseClient counter_uuid demo_container None 0)) []))) =
   replicate 6 (Container (StorageClientContext ''https://account.blob.example/c'' ''opts''))"
proof -
  let ?h = "fst (new_LeaseClient counter_uuid demo_container None 0)"
  have one: "perform demo_service (Acquire 15 None) ?h [] =
      (fst (perform demo_service (Acquire 15 None) ?h []),
       fst (snd (perform demo_service (Acquire 15 None) ?h [])),
       snd (snd (perform demo_service (Acquire 15 None) ?h [])))"
    by simp
  have run: "run_ops demo_service demo_ops ?h [] =
      (fst (run_ops demo_service demo_ops ?h []),
       fst (snd (run_ops demo_service demo_ops ?h [])),
       snd (snd (run_ops demo_service demo_ops ?h [])))"
    by simp
  have len: "length demo_ops = 6"
    by (simp add: demo_ops_def)
  note inst = operation_object_fixed_at_construction
    [of counter_uuid "''https://account.blob.example/c''" "''opts''" None 0
      demo_service "Acquire 15 None" ?h "[]" demo_ops]
  have "containerOrBlobOperation ?h =
      Container (StorageClientContext ''https://account.blob.example/c'' ''opts'')"
    using inst by (simp add: demo_container_def)
  moreover have "map fst (snd (snd (perform demo_service (Acquire 15 None) ?h []))) =
      map fst [] @ [containerOrBlobOperation ?h]"
    using inst [THEN conjunct2, THEN conjunct2, THEN conjunct1, rule_format, OF one] by simp
  moreover have "map fst (snd (snd (run_ops demo_service demo_ops ?h []))) =
      map fst [] @ replicate (length demo_ops) (containerOrBlobOperation ?h)"
    using inst [THEN conjunct2, THEN conjunct2, THEN conjunct2, rule_format, OF run] by simp
  ultimately show ?thesis
    by (simp add: len)
qed

subsection \<open>acquireLease\<close>

text \<open>
  Claim C6: for every duration and every state of the lease client, \<^verbatim>\<open>acquireLease\<close>
  forwards exactly one request to the handle's operation object, with the duration as it
  was given (no local check of the bounds), the handle's current \<open>leaseId\<close> as the
  proposed lease id, the abort signal (\<^verbatim>\<open>AbortSignal.none\<close> when none is given) and the
  access conditions; it returns the service's outcome unchanged and leaves the handle as
  it was.
\<close>

theorem acquireLease_forwards_duration_and_leaseId:
  "acquireLease service duration options this log =
     (service log (containerOrBlobOperation this)
        (AcquireLeaseRequest
           (case options of None \<Rightarrow> AbortSignal_none
            | Some opts \<Rightarrow> (case abortSignal opts of None \<Rightarrow> AbortSignal_none | Some a \<Rightarrow> a))
           duration
           (case options of None \<Rightarrow> None | Some opts \<Rightarrow> modifiedAccessConditions opts)
           (leaseId this)),
      this,
      log @ [(containerOrBlobOperation this,
        AcquireLeaseRequest
           (case options of None \<Rightarrow> AbortSignal_none
            | Some opts \<Rightarrow> (case abortSignal opts of None \<Rightarrow> AbortSignal_none | Some a \<Rightarrow> a))
           duration
           (case options of None \<Rightarrow> None | Some opts \<Rightarrow> modifiedAccessConditions opts)
           (leaseId this))])"
  by (simp add: acquireLease_eq options_or_empty_def aborter_of_def split: option.splits)

theorem acquireLease_forwards_duration_and_leaseId_witness:
  "acquireLease demo_service 7 None demo_handle [] =
     (Inl ''InvalidHeaderValue'', demo_handle,
      [(containerOrBlobOperation demo_handle, AcquireLeaseRequest AbortSignal_none 7 None ''id-1'')])"
  using acquireLease_forwards_duration_and_leaseId [of demo_service 7 None demo_handle "[]"]
  by (simp add: demo_service_def demo_handle_def new_LeaseClient_eq)

subsection \<open>An empty lease id given to the constructor\<close>

text \<open>
  Claim C9: the constructor treats a lease id equal to the empty string as absent: the
  handle is the one built with no id, and its \<open>leaseId\<close> is the identifier just
  generated. So, the generated identifier being non-empty, the handle's \<open>leaseId\<close> is not
  the empty string after any construction, whatever id the caller gave.
\<close>

theorem new_LeaseClient_leaseId_never_empty:
  assumes "fst (generateUuid g) \<noteq> []"
  shows "new_LeaseClient generateUuid client (Some []) g = new_LeaseClient generateUuid client None g \<and>
         leaseId (fst (new_LeaseClient generateUuid client (Some []) g)) = fst (generateUuid g) \<and>
         leaseId (fst (new_LeaseClient generateUuid client leaseId_arg g)) \<noteq> []"
  using assms
  by (simp add: new_LeaseClient_eq split: option.splits)

theorem new_LeaseClient_leaseId_never_empty_witness:
  "leaseId (fst (new_LeaseClient counter_uuid demo_container (Some []) 0)) = ''uuid-x'' \<and>
   new_LeaseClient counter_uuid demo_container (Some []) 0 =
     new_LeaseClient counter_uuid demo_container None 0 \<and>
   leaseId (fst (new_LeaseClient counter_uuid demo_container (Some ''id-1'') 0)) \<noteq> []"
proof -
  have g: "fst (counter_uuid 0) \<noteq> []"
    by (simp add: counter_uuid_def)
  from new_LeaseClient_leaseId_never_empty [of counter_uuid 0 demo_container "Some []", OF g]
    new_LeaseClient_leaseId_never_empty [of counter_uuid 0 demo_container "Some ''id-1''", OF g]
  show ?thesis
    by (simp add: counter_uuid_def)
qed

subsection \<open>breakLease\<close>

text \<open>
  Claim C10: for every state of the lease client and every \<^verbatim>\<open>breakLease\<close> call, the
  request forwarded to the operation object holds exactly the abort signal
  (\<^verbatim>\<open>AbortSignal.none\<close> when none is given), the break period and the access conditions;
  the handle's \<open>leaseId\<close> is not part of it, so for two handles that differ only in their
  \<open>leaseId\<close> the forwarded request, the log and the outcome are the same.
\<close>

theorem breakLease_request_independent_of_leaseId:
  "breakLease service breakPeriod options this log =
     (service log (containerOrBlobOperation this)
        (BreakLeaseRequest
           (case options of None \<Rightarrow> AbortSignal_none
            | Some opts \<Rightarrow> (case abortSignal opts of None \<Rightarrow> AbortSignal_none | Some a \<Rightarrow> a))
           breakPeriod
           (case options of None \<Rightarrow> None | Some opts \<Rightarrow> modifiedAccessConditions opts)),
      this,
      log @ [(containerOrBlobOperation this,
        BreakLeaseRequest
           (case options of None \<Rightarrow> AbortSignal_none
            | Some opts \<Rightarrow> (case abortSignal opts of None \<Rightarrow> AbortSignal_none | Some a \<Rightarrow> a))
           breakPeriod
           (case options of None \<Rightarrow> None | Some opts \<Rightarrow> modifiedAccessConditions opts))]) \<and>
   fst (breakLease service breakPeriod options (this\<lparr>leaseId := other\<rparr>) log) =
     fst (breakLease service breakPeriod options this log) \<and>
   snd (snd (breakLease service breakPeriod options (this\<lparr>leaseId := other\<rparr>) log)) =
     snd (snd (breakLease service breakPeriod options this log))"
  by (simp add: breakLease_eq options_or_empty_def aborter_of_def split: option.splits)

theorem breakLease_request_independent_of_leaseId_witness:
  "fst (breakLease demo_service 0 None (demo_handle\<lparr>leaseId := ''another''\<rparr>) []) =
     fst (breakLease demo_service 0 None demo_handle []) \<and>
   snd (snd (breakLease demo_service 0 None demo_handle [])) =
     [(containerOrBlobOperation demo_handle, BreakLeaseRequest AbortSignal_none 0 None)]"
  using breakLease_request_independent_of_leaseId [of demo_service 0 None demo_handle "[]" "''another''"]
  by simp

end
